theory Spec2Isabelle
  imports Main "HOL-Library.Word"
begin

section \<open>The DNS proxy server (server/server.go)\<close>

text \<open>
  The file embeds \<^verbatim>\<open>server/server.go\<close>: the assembly of the resolver chain
  (\<^verbatim>\<open>NewServer\<close>, \<^verbatim>\<open>createParallelUpstreamResolver\<close>), the walk that prints the
  configuration (\<^verbatim>\<open>printConfiguration\<close>) and the handler of one query
  (\<^verbatim>\<open>OnRequest\<close>, \<^verbatim>\<open>resolveClientIP\<close>).

  The resolver objects live on a heap, because the chain is linked by mutation
  (\<^verbatim>\<open>a.Next(b)\<close>) of objects that are shared by pointer. Everything the Go code does
  besides returning a value is a field of the record \<open>world\<close>: the heap, the lines
  given to the logger, and the calls made into package \<^verbatim>\<open>resolver\<close> and into the
  handler registration, in the order in which they are made.
\<close>

subsection \<open>Types of package net\<close>

type_synonym byte = "8 word"

text \<open>\<^verbatim>\<open>net.IP\<close> is a byte slice; \<open>None\<close> is the nil slice.\<close>

type_synonym IP = "byte list option"

text \<open>
  \<^verbatim>\<open>net.UDPAddr\<close> and \<^verbatim>\<open>net.TCPAddr\<close> have the same three fields \<^verbatim>\<open>IP\<close>,
  \<^verbatim>\<open>Port\<close>, \<^verbatim>\<open>Zone\<close>. The interface \<^verbatim>\<open>net.Addr\<close> has further implementations
  (\<^verbatim>\<open>IPAddr\<close>, \<^verbatim>\<open>UnixAddr\<close>, ...), of which only the two methods of the interface
  (\<^verbatim>\<open>Network()\<close>, \<^verbatim>\<open>String()\<close>) are kept; \<open>NilAddr\<close> is the nil interface value.
\<close>

record inet_addr =
  IP :: IP
  AddrPort :: int
  Zone :: string

datatype Addr =
    NilAddr
  | UDPAddr inet_addr
  | TCPAddr inet_addr
  | OtherAddr string string

subsection \<open>Types of the DNS library\<close>

text \<open>
  \<^verbatim>\<open>dns.MsgHdr\<close>, \<^verbatim>\<open>dns.Question\<close> and \<^verbatim>\<open>dns.Msg\<close> with their fields. A resource
  record (\<^verbatim>\<open>dns.RR\<close>) is an interface with one implementation per record type; the
  server never looks into one, so it is the type parameter \<open>'rr\<close>.
\<close>

record MsgHdr =
  MsgId :: "16 word"
  Response :: bool
  Opcode :: int
  Authoritative :: bool
  Truncated :: bool
  RecursionDesired :: bool
  RecursionAvailable :: bool
  Zero :: bool
  AuthenticatedData :: bool
  CheckingDisabled :: bool
  Rcode :: int

record Question =
  Name :: string
  Qtype :: "16 word"
  Qclass :: "16 word"

record 'rr Msg =
  Hdr :: MsgHdr
  Compress :: bool
  Question :: "Question list"
  Answer :: "'rr list"
  Ns :: "'rr list"
  Extra :: "'rr list"

text \<open>
  What is done with a \<^verbatim>\<open>dns.ResponseWriter\<close>: the methods \<^verbatim>\<open>WriteMsg\<close> and
  \<^verbatim>\<open>Close\<close> of the interface, and the library routine \<^verbatim>\<open>dns.HandleFailed(w, r)\<close>,
  which answers the query \<^verbatim>\<open>r\<close> on \<^verbatim>\<open>w\<close> with the failure code of the protocol
  (SERVFAIL). The writer records the calls in order. \<open>RemoteAddr\<close> is the address
  of the peer and \<open>WriteMsgErr\<close> the error that \<^verbatim>\<open>WriteMsg\<close> returns on this writer
  (\<open>None\<close> is nil: the write succeeds).
\<close>

datatype 'rr writer_call =
    CallWriteMsg "'rr Msg"
  | CallHandleFailed "'rr Msg"
  | CallClose

record 'rr ResponseWriter =
  RemoteAddr :: Addr
  WriteMsgErr :: "string option"
  written :: "'rr writer_call list"

definition WriteMsg :: "'rr ResponseWriter \<Rightarrow> 'rr Msg \<Rightarrow> 'rr ResponseWriter \<times> string option" where
  "WriteMsg w m = (w\<lparr>written := written w @ [CallWriteMsg m]\<rparr>, WriteMsgErr w)"

definition HandleFailed :: "'rr ResponseWriter \<Rightarrow> 'rr Msg \<Rightarrow> 'rr ResponseWriter" where
  "HandleFailed w r = w\<lparr>written := written w @ [CallHandleFailed r]\<rparr>"

subsection \<open>Types of package resolver\<close>

text \<open>
  Modelled from the spec: package \<^verbatim>\<open>resolver\<close> is not part of the sources at hand.
  A \<^verbatim>\<open>Request\<close> is the request envelope (client address, the query message, a
  logging context scoped to the request) and a \<^verbatim>\<open>Response\<close> the resolved message
  plus provenance. The fields \<^verbatim>\<open>ClientIP\<close>, \<^verbatim>\<open>Req\<close>, \<^verbatim>\<open>Log\<close> and \<^verbatim>\<open>Res\<close> are the
  ones that server.go reads and writes. \<^verbatim>\<open>Res\<close> is a pointer: \<open>None\<close> is nil.
\<close>

record log_fields =
  question :: string
  client_ip :: IP

record 'rr Request =
  ClientIP :: IP
  Req :: "'rr Msg"
  Log :: log_fields

record 'rr Response =
  Res :: "'rr Msg option"
  Reason :: string

text \<open>
  Modelled from the spec: the types of the resolver objects are not part of the sources
  at hand. An object on the heap has one constructor per Go type that server.go
  constructs. Each of the six stages of the pipeline holds the configuration block it is
  constructed from and "at most one successor reference", which is nil (\<open>None\<close>)
  until \<^verbatim>\<open>Next\<close> sets it; an upstream resolver holds its upstream target and a
  parallel best-resolver its members. A value of the interface
  \<^verbatim>\<open>resolver.Resolver\<close> is nil or the address of an object.
\<close>

type_synonym addr = nat

type_synonym resolver = "addr option"

datatype ('cl, 'ql, 'cu, 'cd, 'bl, 'up) resolver_obj =
    ClientNamesResolver 'cl resolver
  | QueryLoggingResolver 'ql resolver
  | ConditionalUpstreamResolver 'cu resolver
  | CustomDNSResolver 'cd resolver
  | BlockingResolver 'bl resolver
  | CachingResolver resolver
  | UpstreamResolver 'up
  | ParallelBestResolver "resolver list"

text \<open>
  Modelled from the spec: which types implement \<^verbatim>\<open>ChainedResolver\<close>, and its
  method \<^verbatim>\<open>GetNext()\<close>, which "returns the successor, or an absence marker". The
  six stages are chained resolvers (server.go calls \<^verbatim>\<open>Next\<close> on each). The parallel
  best-resolver is "inherently terminal" and "implements only the base Resolver
  capability"; the upstream resolver is the "terminal resolver: a stage with no
  successor". \<open>GetNext\<close> is the type assertion \<^verbatim>\<open>res.(resolver.ChainedResolver)\<close>
  followed by \<^verbatim>\<open>GetNext()\<close>: \<open>None\<close> when the assertion fails, otherwise the
  successor (which may be nil).
\<close>

fun GetNext :: "('cl, 'ql, 'cu, 'cd, 'bl, 'up) resolver_obj \<Rightarrow> resolver option" where
  "GetNext (ClientNamesResolver c n) = Some n"
| "GetNext (QueryLoggingResolver c n) = Some n"
| "GetNext (ConditionalUpstreamResolver c n) = Some n"
| "GetNext (CustomDNSResolver c n) = Some n"
| "GetNext (BlockingResolver c n) = Some n"
| "GetNext (CachingResolver n) = Some n"
| "GetNext (UpstreamResolver u) = None"
| "GetNext (ParallelBestResolver rs) = None"

text \<open>
  Modelled from the spec: the method \<^verbatim>\<open>Next(r)\<close> of a chained resolver "links this
  stage's successor". The last two types have no such method (a call does not compile);
  their objects stay as they are.
\<close>

fun setNext :: "('cl, 'ql, 'cu, 'cd, 'bl, 'up) resolver_obj \<Rightarrow> resolver \<Rightarrow>
    ('cl, 'ql, 'cu, 'cd, 'bl, 'up) resolver_obj" where
  "setNext (ClientNamesResolver c n) r = ClientNamesResolver c r"
| "setNext (QueryLoggingResolver c n) r = QueryLoggingResolver c r"
| "setNext (ConditionalUpstreamResolver c n) r = ConditionalUpstreamResolver c r"
| "setNext (CustomDNSResolver c n) r = CustomDNSResolver c r"
| "setNext (BlockingResolver c n) r = BlockingResolver c r"
| "setNext (CachingResolver n) r = CachingResolver r"
| "setNext (UpstreamResolver u) r = UpstreamResolver u"
| "setNext (ParallelBestResolver rs) r = ParallelBestResolver rs"

subsection \<open>The world\<close>

text \<open>
  One constructor per log statement of \<^verbatim>\<open>printConfiguration\<close> and
  \<^verbatim>\<open>OnRequest\<close>, with the values that are formatted into the line.
\<close>

datatype log_entry =
    LogCurrentConfiguration
  | LogResolver addr
  | LogConfigurationLine string
  | LogNewRequest
  | LogErrorOnProcessing string
  | LogCantWriteMessage string

text \<open>
  The calls that server.go makes to the methods \<^verbatim>\<open>Next\<close> and \<^verbatim>\<open>Resolve\<close> of a
  resolver, and to \<^verbatim>\<open>HandleFunc\<close> of the multiplexer of a listener (the network of
  the listener and the pattern; the handler is always \<^verbatim>\<open>server.OnRequest\<close>).
\<close>

datatype 'rr call =
    CallNext addr resolver
  | CallResolve addr "'rr Request"
  | CallHandleFunc string string

record ('cl, 'ql, 'cu, 'cd, 'bl, 'up, 'rr) world =
  heap :: "addr \<Rightarrow> ('cl, 'ql, 'cu, 'cd, 'bl, 'up) resolver_obj option"
  nextAddr :: addr
  logged :: "log_entry list"
  calls :: "'rr call list"

text \<open>A run-time panic of Go.\<close>

datatype panic = NilDereference

subsection \<open>The server\<close>

text \<open>
  \<^verbatim>\<open>dns.Server\<close> with the fields that \<^verbatim>\<open>NewServer\<close> sets. \<open>Handler\<close> is the
  multiplexer of the listener, kept as the list of the patterns that it routes to
  \<^verbatim>\<open>server.OnRequest\<close>. The callbacks \<^verbatim>\<open>NotifyStartedFunc\<close> only log that a
  listener is up and are left out. \<open>Server\<close> is the struct of server.go.
\<close>

record dns_Server =
  Addr :: string
  Net :: string
  Handler :: "string list"
  UDPSize :: int

record Server =
  udpServer :: dns_Server
  tcpServer :: dns_Server
  queryResolver :: resolver

subsection \<open>The configuration\<close>

text \<open>
  Modelled from the spec: package \<^verbatim>\<open>config\<close> is not part of the sources at hand.
  \<open>Config\<close> is the "configuration surface consumed by the assembler": the listening
  port, the configuration blocks of the stages, and the list of upstream targets, under
  the field names by which server.go reads them. The types of a configuration block and
  of an upstream target are type parameters.
\<close>

record 'up UpstreamConfig =
  ExternalResolvers :: "'up list"

record ('cl, 'ql, 'cu, 'cd, 'bl, 'up) Config =
  Port :: nat
  ClientLookup :: 'cl
  QueryLog :: 'ql
  Conditional :: 'cu
  CustomDNS :: 'cd
  Blocking :: 'bl
  Upstream :: "'up UpstreamConfig"

subsection \<open>The constructors and the method Next of package resolver\<close>

text \<open>
  Modelled from the spec: the constructors of package \<^verbatim>\<open>resolver\<close> are not part of
  the sources at hand. Each one allocates a new object that holds its argument and, for
  a chained resolver, no successor yet ("constructed once at startup"; the successor is
  linked by \<^verbatim>\<open>Next\<close> "at pipeline-assembly time").
\<close>

definition alloc :: "('cl, 'ql, 'cu, 'cd, 'bl, 'up) resolver_obj \<Rightarrow>
    ('cl, 'ql, 'cu, 'cd, 'bl, 'up, 'rr) world \<Rightarrow> addr \<times> ('cl, 'ql, 'cu, 'cd, 'bl, 'up, 'rr) world" where
  "alloc ob wd =
     (nextAddr wd, wd\<lparr>heap := (heap wd)(nextAddr wd \<mapsto> ob), nextAddr := Suc (nextAddr wd)\<rparr>)"

definition NewClientNamesResolver :: "'cl \<Rightarrow> ('cl, 'ql, 'cu, 'cd, 'bl, 'up, 'rr) world \<Rightarrow>
    addr \<times> ('cl, 'ql, 'cu, 'cd, 'bl, 'up, 'rr) world" where
  "NewClientNamesResolver c wd = alloc (ClientNamesResolver c None) wd"

definition NewQueryLoggingResolver :: "'ql \<Rightarrow> ('cl, 'ql, 'cu, 'cd, 'bl, 'up, 'rr) world \<Rightarrow>
    addr \<times> ('cl, 'ql, 'cu, 'cd, 'bl, 'up, 'rr) world" where
  "NewQueryLoggingResolver c wd = alloc (QueryLoggingResolver c None) wd"

definition NewConditionalUpstreamResolver :: "'cu \<Rightarrow> ('cl, 'ql, 'cu, 'cd, 'bl, 'up, 'rr) world \<Rightarrow>
    addr \<times> ('cl, 'ql, 'cu, 'cd, 'bl, 'up, 'rr) world" where
  "NewConditionalUpstreamResolver c wd = alloc (ConditionalUpstreamResolver c None) wd"

definition NewCustomDNSResolver :: "'cd \<Rightarrow> ('cl, 'ql, 'cu, 'cd, 'bl, 'up, 'rr) world \<Rightarrow>
    addr \<times> ('cl, 'ql, 'cu, 'cd, 'bl, 'up, 'rr) world" where
  "NewCustomDNSResolver c wd = alloc (CustomDNSResolver c None) wd"

definition NewBlockingResolver :: "'bl \<Rightarrow> ('cl, 'ql, 'cu, 'cd, 'bl, 'up, 'rr) world \<Rightarrow>
    addr \<times> ('cl, 'ql, 'cu, 'cd, 'bl, 'up, 'rr) world" where
  "NewBlockingResolver c wd = alloc (BlockingResolver c None) wd"

definition NewCachingResolver :: "('cl, 'ql, 'cu, 'cd, 'bl, 'up, 'rr) world \<Rightarrow>
    addr \<times> ('cl, 'ql, 'cu, 'cd, 'bl, 'up, 'rr) world" where
  "NewCachingResolver wd = alloc (CachingResolver None) wd"

definition NewUpstreamResolver :: "'up \<Rightarrow> ('cl, 'ql, 'cu, 'cd, 'bl, 'up, 'rr) world \<Rightarrow>
    addr \<times> ('cl, 'ql, 'cu, 'cd, 'bl, 'up, 'rr) world" where
  "NewUpstreamResolver u wd = alloc (UpstreamResolver u) wd"

definition NewParallelBestResolver :: "resolver list \<Rightarrow> ('cl, 'ql, 'cu, 'cd, 'bl, 'up, 'rr) world \<Rightarrow>
    addr \<times> ('cl, 'ql, 'cu, 'cd, 'bl, 'up, 'rr) world" where
  "NewParallelBestResolver resolvers wd = alloc (ParallelBestResolver resolvers) wd"

text \<open>
  The call \<^verbatim>\<open>a.Next(r)\<close> in server.go: the object at \<open>a\<close> gets the successor
  \<open>r\<close>, and the call is recorded.
\<close>

definition Next :: "addr \<Rightarrow> resolver \<Rightarrow> ('cl, 'ql, 'cu, 'cd, 'bl, 'up, 'rr) world \<Rightarrow>
    ('cl, 'ql, 'cu, 'cd, 'bl, 'up, 'rr) world" where
  "Next a r wd =
     wd\<lparr>heap := (case heap wd a of
                   None \<Rightarrow> heap wd
                 | Some ob \<Rightarrow> (heap wd)(a \<mapsto> setNext ob r)),
        calls := calls wd @ [CallNext a r]\<rparr>"

text \<open>
  \<^verbatim>\<open>mux.HandleFunc(pattern, server.OnRequest)\<close> on the multiplexer of a listener.
\<close>

definition HandleFunc :: "dns_Server \<Rightarrow> string \<Rightarrow> ('cl, 'ql, 'cu, 'cd, 'bl, 'up, 'rr) world \<Rightarrow>
    dns_Server \<times> ('cl, 'ql, 'cu, 'cd, 'bl, 'up, 'rr) world" where
  "HandleFunc srv pattern wd =
     (srv\<lparr>Handler := Handler srv @ [pattern]\<rparr>,
      wd\<lparr>calls := calls wd @ [CallHandleFunc (Net srv) pattern]\<rparr>)"

subsection \<open>createParallelUpstreamResolver\<close>

text \<open>
  The loop \<^verbatim>\<open>for i, u := range upstream { resolvers[i] = NewUpstreamResolver(u) }\<close>,
  started at index \<open>i\<close> with the entries that are left. The slice \<^verbatim>\<open>resolvers\<close> is
  made with the length of \<^verbatim>\<open>upstream\<close>, so the index is in range.
\<close>

fun fillResolvers :: "nat \<Rightarrow> 'up list \<Rightarrow> resolver list \<Rightarrow>
    ('cl, 'ql, 'cu, 'cd, 'bl, 'up, 'rr) world \<Rightarrow>
    resolver list \<times> ('cl, 'ql, 'cu, 'cd, 'bl, 'up, 'rr) world" where
  "fillResolvers i [] resolvers wd = (resolvers, wd)"
| "fillResolvers i (u # us) resolvers wd =
     (let (r, wd') = NewUpstreamResolver u wd
      in fillResolvers (Suc i) us (resolvers[i := Some r]) wd')"

definition createParallelUpstreamResolver :: "'up list \<Rightarrow>
    ('cl, 'ql, 'cu, 'cd, 'bl, 'up, 'rr) world \<Rightarrow>
    resolver \<times> ('cl, 'ql, 'cu, 'cd, 'bl, 'up, 'rr) world" where
  "createParallelUpstreamResolver upstream wd =
     (if length upstream = 1 then
        (let (r, wd') = NewUpstreamResolver (upstream ! 0) wd in (Some r, wd'))
      else
        (let resolvers = replicate (length upstream) None;
             (resolvers, wd1) = fillResolvers 0 upstream resolvers wd;
             (r, wd2) = NewParallelBestResolver resolvers wd1
         in (Some r, wd2)))"

subsection \<open>printConfiguration\<close>

text \<open>
  The loop \<^verbatim>\<open>for res != nil { ... }\<close> of \<^verbatim>\<open>printConfiguration\<close>. It follows the
  successor links for as long as there are any, so on a cyclic chain it does not
  return: the result \<open>None\<close>. (An address without an object does not exist in Go; the
  result is \<open>None\<close> there as well.) \<open>Configuration\<close> is the method
  \<^verbatim>\<open>Configuration()\<close> of the resolver objects, a parameter as \<open>Resolve\<close> is.
\<close>

partial_function (option) printLoop ::
  "((addr \<Rightarrow> ('cl, 'ql, 'cu, 'cd, 'bl, 'up) resolver_obj option) \<Rightarrow> addr \<Rightarrow> string list) \<Rightarrow>
   resolver \<Rightarrow> ('cl, 'ql, 'cu, 'cd, 'bl, 'up, 'rr) world \<Rightarrow>
   ('cl, 'ql, 'cu, 'cd, 'bl, 'up, 'rr) world option" where
  "printLoop Configuration res wd =
    (case res of
       None \<Rightarrow> Some wd
     | Some a \<Rightarrow>
         (case heap wd a of
            None \<Rightarrow> None
          | Some ob \<Rightarrow>
              (let wd1 = wd\<lparr>logged := logged wd @ [LogResolver a]\<rparr>;
                   wd2 = wd1\<lparr>logged := logged wd1 @
                           map LogConfigurationLine (Configuration (heap wd1) a)\<rparr>
               in case GetNext ob of
                    Some c \<Rightarrow> printLoop Configuration c wd2
                  | None \<Rightarrow> Some wd2)))"

definition printConfiguration ::
  "((addr \<Rightarrow> ('cl, 'ql, 'cu, 'cd, 'bl, 'up) resolver_obj option) \<Rightarrow> addr \<Rightarrow> string list) \<Rightarrow>
   Server \<Rightarrow> ('cl, 'ql, 'cu, 'cd, 'bl, 'up, 'rr) world \<Rightarrow>
   ('cl, 'ql, 'cu, 'cd, 'bl, 'up, 'rr) world option" where
  "printConfiguration Configuration s wd =
     printLoop Configuration (queryResolver s)
       (wd\<lparr>logged := logged wd @ [LogCurrentConfiguration]\<rparr>)"

subsection \<open>NewServer\<close>

text \<open>\<^verbatim>\<open>fmt.Sprintf("%d", n)\<close> for a number that is not negative.\<close>

function show_nat :: "nat \<Rightarrow> string" where
  "show_nat n =
     (if n < 10 then [char_of (48 + n)]
      else show_nat (n div 10) @ [char_of (48 + n mod 10)])"
  by pat_completeness auto
termination
  by (relation "measure id") auto

text \<open>
  \<^verbatim>\<open>NewServer\<close> returns the pair of Go, a pointer to the server and an error
  (\<open>None\<close> is nil), and the world it leaves. It calls \<^verbatim>\<open>printConfiguration\<close>, so it
  returns only if that does: the result is \<open>None\<close> otherwise. The statements are
  those of the source, in its order; the multiplexers are shared by pointer with the
  listeners, so the patterns registered last are in the server that is returned. The
  configuration is taken as a value (the pointer \<^verbatim>\<open>cfg\<close> is not nil).
\<close>

definition NewServer ::
  "((addr \<Rightarrow> ('cl, 'ql, 'cu, 'cd, 'bl, 'up) resolver_obj option) \<Rightarrow> addr \<Rightarrow> string list) \<Rightarrow>
   ('cl, 'ql, 'cu, 'cd, 'bl, 'up) Config \<Rightarrow> ('cl, 'ql, 'cu, 'cd, 'bl, 'up, 'rr) world \<Rightarrow>
   ((Server option \<times> string option) \<times> ('cl, 'ql, 'cu, 'cd, 'bl, 'up, 'rr) world) option" where
  "NewServer Configuration cfg wd0 =
    (let udpServer0 = \<lparr>Addr = CHR '':'' # show_nat (Port cfg), Net = ''udp'',
                      Handler = [], UDPSize = 65535\<rparr>;
         tcpServer0 = \<lparr>Addr = CHR '':'' # show_nat (Port cfg), Net = ''tcp'',
                      Handler = [], UDPSize = 0\<rparr>;
         (clientNamesResolver, wd1) = NewClientNamesResolver (ClientLookup cfg) wd0;
         (queryLoggingResolver, wd2) = NewQueryLoggingResolver (QueryLog cfg) wd1;
         (conditionalUpstreamResolver, wd3) =
            NewConditionalUpstreamResolver (Conditional cfg) wd2;
         (customDNSResolver, wd4) = NewCustomDNSResolver (CustomDNS cfg) wd3;
         (blacklistResolver, wd5) = NewBlockingResolver (Blocking cfg) wd4;
         (cachingResolver, wd6) = NewCachingResolver wd5;
         (parallelUpstreamResolver, wd7) =
            createParallelUpstreamResolver (ExternalResolvers (Upstream cfg)) wd6;
         wd8 = Next clientNamesResolver (Some queryLoggingResolver) wd7;
         wd9 = Next queryLoggingResolver (Some conditionalUpstreamResolver) wd8;
         wd10 = Next conditionalUpstreamResolver (Some customDNSResolver) wd9;
         wd11 = Next customDNSResolver (Some blacklistResolver) wd10;
         wd12 = Next blacklistResolver (Some cachingResolver) wd11;
         wd13 = Next cachingResolver parallelUpstreamResolver wd12;
         server = \<lparr>udpServer = udpServer0, tcpServer = tcpServer0,
                   queryResolver = Some clientNamesResolver\<rparr>
     in case printConfiguration Configuration server wd13 of
          None \<Rightarrow> None
        | Some wd14 \<Rightarrow>
            (let (udpServer1, wd15) = HandleFunc (udpServer server) ''.'' wd14;
                 (tcpServer1, wd16) = HandleFunc (tcpServer server) ''.'' wd15
             in Some ((Some (server\<lparr>udpServer := udpServer1, tcpServer := tcpServer1\<rparr>), None),
                      wd16)))"

subsection \<open>resolveClientIP and OnRequest\<close>

fun resolveClientIP :: "Addr \<Rightarrow> IP" where
  "resolveClientIP (UDPAddr t) = IP t"
| "resolveClientIP (TCPAddr t) = IP t"
| "resolveClientIP a = None"

text \<open>
  \<^verbatim>\<open>OnRequest\<close> handles one query. \<open>Resolve\<close> is the method \<^verbatim>\<open>Resolve\<close> of the
  resolver objects and \<open>QuestionToString\<close> the function of package \<^verbatim>\<open>util\<close>;
  neither is in the sources at hand, so both are parameters. \<open>Resolve\<close> gets the heap
  and the address of its receiver and returns the pair of Go: a pointer to a response
  (\<open>None\<close> is nil) and an error (\<open>None\<close> is nil). Calling a method of a nil interface
  value and reading a field through a nil pointer panic. The result is the panic, if
  there is one (\<open>None\<close>: the handler returns), the writer and the world as the call
  leaves them.
\<close>

definition OnRequest ::
  "((addr \<Rightarrow> ('cl, 'ql, 'cu, 'cd, 'bl, 'up) resolver_obj option) \<Rightarrow> addr \<Rightarrow> 'rr Request \<Rightarrow>
      'rr Response option \<times> string option) \<Rightarrow>
   (Question list \<Rightarrow> string) \<Rightarrow> Server \<Rightarrow> 'rr ResponseWriter \<Rightarrow> 'rr Msg \<Rightarrow>
   ('cl, 'ql, 'cu, 'cd, 'bl, 'up, 'rr) world \<Rightarrow>
   panic option \<times> 'rr ResponseWriter \<times> ('cl, 'ql, 'cu, 'cd, 'bl, 'up, 'rr) world" where
  "OnRequest Resolve QuestionToString s w request wd =
    (let wd1 = wd\<lparr>logged := logged wd @ [LogNewRequest]\<rparr>;
         clientIP = resolveClientIP (RemoteAddr w);
         r = \<lparr>ClientIP = clientIP, Req = request,
              Log = \<lparr>question = QuestionToString (Question request), client_ip = clientIP\<rparr>\<rparr>
     in case queryResolver s of
          None \<Rightarrow> (Some NilDereference, w, wd1)
        | Some a \<Rightarrow>
            (let wd2 = wd1\<lparr>calls := calls wd1 @ [CallResolve a r]\<rparr>
             in case Resolve (heap wd2) a r of
                  (response, Some err) \<Rightarrow>
                    (None, HandleFailed w request,
                     wd2\<lparr>logged := logged wd2 @ [LogErrorOnProcessing err]\<rparr>)
                | (response, None) \<Rightarrow>
                    (case response of
                       None \<Rightarrow> (Some NilDereference, w, wd2)
                     | Some resp \<Rightarrow>
                         (case Res resp of
                            None \<Rightarrow> (Some NilDereference, w, wd2)
                          | Some m \<Rightarrow>
                              (let m' = m\<lparr>Hdr := (Hdr m)\<lparr>RecursionAvailable :=
                                          RecursionDesired (Hdr request)\<rparr>\<rparr>;
                                   (w', err) = WriteMsg w m'
                               in case err of
                                    None \<Rightarrow> (None, w', wd2)
                                  | Some e \<Rightarrow>
                                      (None, w', wd2\<lparr>logged := logged wd2 @
                                                 [LogCantWriteMessage e]\<rparr>))))))"

text \<open>
  The request that \<^verbatim>\<open>OnRequest\<close> builds (lines 157 to 164) for the query
  \<open>request\<close> that comes in on the writer \<open>w\<close>.
\<close>

abbreviation request_of :: "(Question list \<Rightarrow> string) \<Rightarrow> 'rr ResponseWriter \<Rightarrow> 'rr Msg \<Rightarrow>
    'rr Request" where
  "request_of QuestionToString w request \<equiv>
     \<lparr>ClientIP = resolveClientIP (RemoteAddr w), Req = request,
      Log = \<lparr>question = QuestionToString (Question request),
              client_ip = resolveClientIP (RemoteAddr w)\<rparr>\<rparr>"

subsection \<open>Chains\<close>

text \<open>
  The spec's chain: "a simple singly-linked sequence", followed from a resolver value
  over the successor links. \<open>chain_path h res as\<close> holds when \<open>as\<close> are the addresses
  of the stages met from \<open>res\<close> in the heap \<open>h\<close>, up to and including the first stage
  that is not a chained resolver, or the stage whose successor is nil.
\<close>

fun chain_path :: "(addr \<Rightarrow> ('cl, 'ql, 'cu, 'cd, 'bl, 'up) resolver_obj option) \<Rightarrow>
    resolver \<Rightarrow> addr list \<Rightarrow> bool" where
  "chain_path h res [] = (res = None)"
| "chain_path h res (a # as) =
     (res = Some a \<and>
      (case h a of
         None \<Rightarrow> False
       | Some ob \<Rightarrow> (case GetNext ob of None \<Rightarrow> as = [] | Some c \<Rightarrow> chain_path h c as)))"

text \<open>
  What the walk is to log for the stages \<open>as\<close>: for each stage its own line, then the
  lines of its \<^verbatim>\<open>Configuration()\<close>.
\<close>

definition printed ::
  "((addr \<Rightarrow> ('cl, 'ql, 'cu, 'cd, 'bl, 'up) resolver_obj option) \<Rightarrow> addr \<Rightarrow> string list) \<Rightarrow>
   (addr \<Rightarrow> ('cl, 'ql, 'cu, 'cd, 'bl, 'up) resolver_obj option) \<Rightarrow> addr list \<Rightarrow>
   log_entry list" where
  "printed Configuration h as =
     concat (map (\<lambda>a. LogResolver a # map LogConfigurationLine (Configuration h a)) as)"

subsection \<open>Example values\<close>

text \<open>
  Concrete inputs on which the theorems below are instantiated: a query for
  \<^verbatim>\<open>example.com\<close> with the recursion-desired flag set, an answer to it, a server
  whose chain starts at a given resolver, a world with one object on the heap, one
  with a chain of three stages and one with a cycle of two stages, a configuration with given upstream targets, writers
  for a given peer address, and instances of the parameters \<open>Resolve\<close>,
  \<open>QuestionToString\<close> and \<open>Configuration\<close>.
\<close>

definition ex_query :: "string Msg" where
  "ex_query = \<lparr>Hdr = \<lparr>MsgId = 4660, Response = False, Opcode = 0, Authoritative = False,
       Truncated = False, RecursionDesired = True, RecursionAvailable = False, Zero = False,
       AuthenticatedData = False, CheckingDisabled = False, Rcode = 0\<rparr>,
     Compress = False,
     Question = [\<lparr>Name = ''example.com.'', Qtype = 1, Qclass = 1\<rparr>],
     Answer = [], Ns = [], Extra = []\<rparr>"

definition ex_answer :: "string Msg" where
  "ex_answer = \<lparr>Hdr = \<lparr>MsgId = 4660, Response = True, Opcode = 0, Authoritative = False,
       Truncated = False, RecursionDesired = True, RecursionAvailable = False, Zero = False,
       AuthenticatedData = False, CheckingDisabled = False, Rcode = 0\<rparr>,
     Compress = False,
     Question = [\<lparr>Name = ''example.com.'', Qtype = 1, Qclass = 1\<rparr>],
     Answer = [''example.com. 300 IN A 93.184.216.34''], Ns = [], Extra = []\<rparr>"

definition ex_server :: "resolver \<Rightarrow> Server" where
  "ex_server head =
    \<lparr>udpServer = \<lparr>Addr = '':53'', Net = ''udp'', Handler = [''.''], UDPSize = 65535\<rparr>,
     tcpServer = \<lparr>Addr = '':53'', Net = ''tcp'', Handler = [''.''], UDPSize = 0\<rparr>,
     queryResolver = head\<rparr>"

definition ex_world :: "(unit, unit, unit, unit, unit, string, string) world" where
  "ex_world = \<lparr>heap = [0 \<mapsto> UpstreamResolver ''1.1.1.1''], nextAddr = 1,
     logged = [], calls = []\<rparr>"

definition ex_chain_world :: "(unit, unit, unit, unit, unit, string, string) world" where
  "ex_chain_world =
    \<lparr>heap = [0 \<mapsto> BlockingResolver () (Some 1), 1 \<mapsto> CachingResolver (Some 4),
             2 \<mapsto> UpstreamResolver ''1.1.1.1'', 3 \<mapsto> UpstreamResolver ''8.8.8.8'',
             4 \<mapsto> ParallelBestResolver [Some 2, Some 3]],
     nextAddr = 5, logged = [], calls = []\<rparr>"

definition ex_cyclic_world :: "(unit, unit, unit, unit, unit, string, string) world" where
  "ex_cyclic_world =
    \<lparr>heap = [0 \<mapsto> BlockingResolver () (Some 1), 1 \<mapsto> CachingResolver (Some 0)],
     nextAddr = 2, logged = [], calls = []\<rparr>"

definition ex_cfg :: "string list \<Rightarrow> (unit, unit, unit, unit, unit, string) Config" where
  "ex_cfg ups = \<lparr>Port = 53, ClientLookup = (), QueryLog = (), Conditional = (),
     CustomDNS = (), Blocking = (), Upstream = \<lparr>ExternalResolvers = ups\<rparr>\<rparr>"

definition ex_peer :: inet_addr where
  "ex_peer = \<lparr>IP = Some [192, 168, 1, 7], AddrPort = 40000, Zone = []\<rparr>"

definition ex_writer :: "Addr \<Rightarrow> string ResponseWriter" where
  "ex_writer peer = \<lparr>RemoteAddr = peer, WriteMsgErr = None, written = []\<rparr>"

definition ex_Resolve_ok ::
  "(addr \<Rightarrow> (unit, unit, unit, unit, unit, string) resolver_obj option) \<Rightarrow> addr \<Rightarrow>
   string Request \<Rightarrow> string Response option \<times> string option" where
  "ex_Resolve_ok h a r = (Some \<lparr>Res = Some ex_answer, Reason = ''RESOLVED''\<rparr>, None)"

definition ex_Resolve_err ::
  "(addr \<Rightarrow> (unit, unit, unit, unit, unit, string) resolver_obj option) \<Rightarrow> addr \<Rightarrow>
   string Request \<Rightarrow> string Response option \<times> string option" where
  "ex_Resolve_err h a r = (None, Some ''i/o timeout'')"

definition ex_QuestionToString :: "Question list \<Rightarrow> string" where
  "ex_QuestionToString qs = concat (map Name qs)"

definition ex_Configuration ::
  "(addr \<Rightarrow> (unit, unit, unit, unit, unit, string) resolver_obj option) \<Rightarrow> addr \<Rightarrow>
   string list" where
  "ex_Configuration h a =
     (case h a of
        Some (UpstreamResolver u) \<Rightarrow> [u]
      | Some (ParallelBestResolver rs) \<Rightarrow> [''parallel'']
      | Some ob \<Rightarrow> []
      | None \<Rightarrow> [])"

section \<open>Lemmas\<close>

subsection \<open>The walk over a chain\<close>

lemma printLoop_path:
  "chain_path (heap wd) res as \<Longrightarrow>
   printLoop Configuration res wd =
     Some (wd\<lparr>logged := logged wd @ printed Configuration (heap wd) as\<rparr>)"
proof (induction as arbitrary: res wd)
  case Nil
  then show ?case by (subst printLoop.simps) (simp add: printed_def)
next
  case (Cons a as)
  from Cons.prems obtain ob where res: "res = Some a" and ob: "heap wd a = Some ob"
    by (auto split: option.splits)
  show ?case
  proof (cases "GetNext ob")
    case None
    with Cons.prems res ob have "as = []" by simp
    with None res ob show ?thesis
      by (subst printLoop.simps) (simp add: printed_def)
  next
    case (Some c)
    let ?wd2 = "wd\<lparr>logged := logged wd @
        LogResolver a # map LogConfigurationLine (Configuration (heap wd) a)\<rparr>"
    from Some Cons.prems res ob have "chain_path (heap ?wd2) c as" by simp
    from Cons.IH [OF this] Some res ob show ?thesis
      by (subst printLoop.simps) (simp add: printed_def)
  qed
qed

lemma printConfiguration_path:
  assumes "chain_path (heap wd) (queryResolver s) as"
  shows "printConfiguration Configuration s wd =
     Some (wd\<lparr>logged := logged wd @ LogCurrentConfiguration #
                 printed Configuration (heap wd) as\<rparr>)"
proof -
  let ?wd = "wd\<lparr>logged := logged wd @ [LogCurrentConfiguration]\<rparr>"
  from assms have "chain_path (heap ?wd) (queryResolver s) as" by simp
  from printLoop_path [OF this, of Configuration] show ?thesis
    by (simp add: printConfiguration_def)
qed

text \<open>
  In a chain every stage but the last is a chained resolver whose successor is the next
  stage; the last one is not a chained resolver, or its successor is nil.
\<close>

lemma chain_path_links:
  "chain_path h res as \<Longrightarrow> Suc i < length as \<Longrightarrow>
   \<exists>ob. h (as ! i) = Some ob \<and> GetNext ob = Some (Some (as ! Suc i))"
proof (induction as arbitrary: res i)
  case Nil
  then show ?case by simp
next
  case (Cons a as)
  from Cons.prems(2) obtain b bs where as: "as = b # bs" by (cases as) auto
  from Cons.prems(1) as obtain ob where ob: "h a = Some ob"
    and nx: "GetNext ob = Some (Some b)" and rest: "chain_path h (Some b) as"
    by (auto split: option.splits)
  show ?case
  proof (cases i)
    case 0
    with ob nx as show ?thesis by simp
  next
    case (Suc j)
    with Cons.prems(2) have "Suc j < length as" by simp
    from Cons.IH [OF rest this] Suc show ?thesis by simp
  qed
qed

lemma chain_path_last:
  "chain_path h res as \<Longrightarrow> as \<noteq> [] \<Longrightarrow>
   \<exists>ob. h (last as) = Some ob \<and> (GetNext ob = None \<or> GetNext ob = Some None)"
proof (induction as arbitrary: res)
  case Nil
  then show ?case by simp
next
  case (Cons a as)
  from Cons.prems(1) obtain ob where ob: "h a = Some ob"
    by (auto split: option.splits)
  show ?case
  proof (cases as)
    case Nil
    with Cons.prems(1) ob show ?thesis
      by (cases "GetNext ob") auto
  next
    case (Cons b bs)
    with Cons.prems(1) ob obtain c where "chain_path h c as"
      by (auto split: option.splits)
    from Cons.IH [OF this] Cons show ?thesis by simp
  qed
qed

text \<open>
  The converse: the walk returns only on a chain. On a cycle it does not return.
\<close>

lemma printLoop_returns_only_on_chain:
  assumes r: "printLoop Configuration res wd = Some wd'"
  shows "\<exists>as. chain_path (heap wd) res as"
  using r
proof (induct Configuration res wd wd'
    rule: printLoop.raw_induct [rotated 1, consumes 1, case_names step])
  case (step f Configuration res wd wd')
  note IH = step(1) and step = step(2)
  show ?case
  proof (cases res)
    case None
    then have "chain_path (heap wd) res []" by simp
    then show ?thesis ..
  next
    case (Some a)
    with step obtain ob where ob: "heap wd a = Some ob"
      by (auto split: option.splits)
    show ?thesis
    proof (cases "GetNext ob")
      case None
      with Some ob have "chain_path (heap wd) res [a]" by simp
      then show ?thesis ..
    next
      case nx: (Some c)
      let ?wd2 = "wd\<lparr>logged := logged wd @
          LogResolver a # map LogConfigurationLine (Configuration (heap wd) a)\<rparr>"
      from step Some ob nx have "f Configuration c ?wd2 = Some wd'"
        by (simp add: Let_def)
      from IH [OF this] obtain as where "chain_path (heap wd) c as" by auto
      with Some ob nx have "chain_path (heap wd) res (a # as)" by simp
      then show ?thesis ..
    qed
  qed
qed

lemma printLoop_cyclic_does_not_return:
  "printLoop Configuration (Some 0) ex_cyclic_world = None"
proof -
  have no: "\<not> chain_path (heap ex_cyclic_world) (Some 0) as \<and>
      \<not> chain_path (heap ex_cyclic_world) (Some 1) as" for as
    by (induction as) (auto simp: ex_cyclic_world_def)
  show ?thesis
    using printLoop_returns_only_on_chain [of Configuration "Some 0" ex_cyclic_world] no
    by (cases "printLoop Configuration (Some 0) ex_cyclic_world") auto
qed

subsection \<open>The terminal stage and the assembly\<close>

lemma fillResolvers_eq:
  "length rs = i + length us \<Longrightarrow>
   fillResolvers i us rs wd =
     (take i rs @ map Some [nextAddr wd ..< nextAddr wd + length us],
      wd\<lparr>heap := (\<lambda>a. if nextAddr wd \<le> a \<and> a < nextAddr wd + length us
                        then Some (UpstreamResolver (us ! (a - nextAddr wd))) else heap wd a),
         nextAddr := nextAddr wd + length us\<rparr>)"
proof (induction us arbitrary: i rs wd)
  case Nil
  have "\<And>f. (\<lambda>a. if nextAddr wd \<le> a \<and> a < nextAddr wd then f a else heap wd a) = heap wd"
    by (rule ext) auto
  with Nil show ?case by simp
next
  case (Cons u us)
  let ?wd = "wd\<lparr>heap := (heap wd)(nextAddr wd \<mapsto> UpstreamResolver u), nextAddr := Suc (nextAddr wd)\<rparr>"
  have len: "length (rs[i := Some (nextAddr wd)]) = Suc i + length us"
    using Cons.prems by simp
  have tk: "take (Suc i) (rs[i := Some (nextAddr wd)]) = take i rs @ [Some (nextAddr wd)]"
    using Cons.prems by (simp add: take_Suc_conv_app_nth)
  have up: "[nextAddr wd ..< nextAddr wd + length (u # us)] =
      nextAddr wd # [Suc (nextAddr wd) ..< Suc (nextAddr wd) + length us]"
    by (simp add: upt_rec)
  have hp: "(\<lambda>a. if nextAddr ?wd \<le> a \<and> a < nextAddr ?wd + length us
                 then Some (UpstreamResolver (us ! (a - nextAddr ?wd)))
                 else heap ?wd a) =
            (\<lambda>a. if nextAddr wd \<le> a \<and> a < nextAddr wd + length (u # us)
                 then Some (UpstreamResolver ((u # us) ! (a - nextAddr wd))) else heap wd a)"
  proof (rule ext)
    fix a
    have "a - Suc (nextAddr wd) = a - nextAddr wd - 1" by simp
    then show "(if nextAddr ?wd \<le> a \<and> a < nextAddr ?wd + length us
                 then Some (UpstreamResolver (us ! (a - nextAddr ?wd)))
                 else heap ?wd a) =
            (if nextAddr wd \<le> a \<and> a < nextAddr wd + length (u # us)
                 then Some (UpstreamResolver ((u # us) ! (a - nextAddr wd))) else heap wd a)"
      by (auto simp: nth_Cons')
  qed
  note IH = Cons.IH [OF len, of ?wd]
  show ?case
    apply (simp only: fillResolvers.simps NewUpstreamResolver_def alloc_def Let_def prod.case)
    apply (simp only: IH hp tk up)
    apply simp
    done
qed

lemma createParallelUpstreamResolver_eq:
  "createParallelUpstreamResolver ups wd =
     (if length ups = 1 then
        (Some (nextAddr wd),
         wd\<lparr>heap := (heap wd)(nextAddr wd \<mapsto> UpstreamResolver (ups ! 0)),
            nextAddr := Suc (nextAddr wd)\<rparr>)
      else
        (Some (nextAddr wd + length ups),
         wd\<lparr>heap := (\<lambda>a. if nextAddr wd \<le> a \<and> a < nextAddr wd + length ups
                          then Some (UpstreamResolver (ups ! (a - nextAddr wd))) else heap wd a)
                       (nextAddr wd + length ups \<mapsto>
                          ParallelBestResolver (map Some [nextAddr wd ..< nextAddr wd + length ups])),
            nextAddr := Suc (nextAddr wd + length ups)\<rparr>))"
  by (simp add: createParallelUpstreamResolver_def NewUpstreamResolver_def
      NewParallelBestResolver_def alloc_def fillResolvers_eq)

lemma NewServer_props:
  fixes cfg :: "('cl, 'ql, 'cu, 'cd, 'bl, 'up) Config"
    and wd :: "('cl, 'ql, 'cu, 'cd, 'bl, 'up, 'rr) world"
  defines "L \<equiv> nextAddr wd"
    and "ups \<equiv> ExternalResolvers (Upstream cfg)"
  defines "t \<equiv> (if length ups = 1 then L + 6 else L + 6 + length ups)"
  obtains s wd' where
    "NewServer C cfg wd = Some ((Some s, None), wd')"
    "queryResolver s = Some L"
    "heap wd' L = Some (ClientNamesResolver (ClientLookup cfg) (Some (L + 1)))"
    "heap wd' (L + 1) = Some (QueryLoggingResolver (QueryLog cfg) (Some (L + 2)))"
    "heap wd' (L + 2) = Some (ConditionalUpstreamResolver (Conditional cfg) (Some (L + 3)))"
    "heap wd' (L + 3) = Some (CustomDNSResolver (CustomDNS cfg) (Some (L + 4)))"
    "heap wd' (L + 4) = Some (BlockingResolver (Blocking cfg) (Some (L + 5)))"
    "heap wd' (L + 5) = Some (CachingResolver (Some t))"
    "heap wd' t = Some (if length ups = 1 then UpstreamResolver (ups ! 0)
        else ParallelBestResolver (map Some [L + 6 ..< L + 6 + length ups]))"
    "calls wd' = calls wd @
       [CallNext L (Some (L + 1)), CallNext (L + 1) (Some (L + 2)),
        CallNext (L + 2) (Some (L + 3)), CallNext (L + 3) (Some (L + 4)),
        CallNext (L + 4) (Some (L + 5)), CallNext (L + 5) (Some t),
        CallHandleFunc ''udp'' ''.'', CallHandleFunc ''tcp'' ''.'']"
    "logged wd' = logged wd @ LogCurrentConfiguration #
       printed C (heap wd') [L, L + 1, L + 2, L + 3, L + 4, L + 5, t]"
    "chain_path (heap wd') (Some L) [L, L + 1, L + 2, L + 3, L + 4, L + 5, t]"
    "nextAddr wd' = Suc t"
    "\<And>a. a < L \<Longrightarrow> heap wd' a = heap wd a"
proof -
  define wd1 where "wd1 = wd\<lparr>heap := (heap wd)(L \<mapsto> ClientNamesResolver (ClientLookup cfg) None),
     nextAddr := L + 1\<rparr>"
  define wd2 where "wd2 = wd1\<lparr>heap := (heap wd1)(L + 1 \<mapsto> QueryLoggingResolver (QueryLog cfg) None),
     nextAddr := L + 2\<rparr>"
  define wd3 where "wd3 = wd2\<lparr>heap := (heap wd2)(L + 2 \<mapsto>
     ConditionalUpstreamResolver (Conditional cfg) None), nextAddr := L + 3\<rparr>"
  define wd4 where "wd4 = wd3\<lparr>heap := (heap wd3)(L + 3 \<mapsto> CustomDNSResolver (CustomDNS cfg) None),
     nextAddr := L + 4\<rparr>"
  define wd5 where "wd5 = wd4\<lparr>heap := (heap wd4)(L + 4 \<mapsto> BlockingResolver (Blocking cfg) None),
     nextAddr := L + 5\<rparr>"
  define wd6 where "wd6 = wd5\<lparr>heap := (heap wd5)(L + 5 \<mapsto> CachingResolver None),
     nextAddr := L + 6\<rparr>"
  define wd7 where "wd7 = snd (createParallelUpstreamResolver ups wd6)"
  define wd13 where "wd13 =
     Next (L + 5) (Some t) (Next (L + 4) (Some (L + 5)) (Next (L + 3) (Some (L + 4))
       (Next (L + 2) (Some (L + 3)) (Next (L + 1) (Some (L + 2)) (Next L (Some (L + 1)) wd7)))))"
  have e1: "NewClientNamesResolver (ClientLookup cfg) wd = (L, wd1)"
    by (simp add: NewClientNamesResolver_def alloc_def wd1_def L_def)
  have e2: "NewQueryLoggingResolver (QueryLog cfg) wd1 = (L + 1, wd2)"
    by (simp add: NewQueryLoggingResolver_def alloc_def wd2_def wd1_def)
  have e3: "NewConditionalUpstreamResolver (Conditional cfg) wd2 = (L + 2, wd3)"
    by (simp add: NewConditionalUpstreamResolver_def alloc_def wd3_def wd2_def)
  have e4: "NewCustomDNSResolver (CustomDNS cfg) wd3 = (L + 3, wd4)"
    by (simp add: NewCustomDNSResolver_def alloc_def wd4_def wd3_def)
  have e5: "NewBlockingResolver (Blocking cfg) wd4 = (L + 4, wd5)"
    by (simp add: NewBlockingResolver_def alloc_def wd5_def wd4_def)
  have e6: "NewCachingResolver wd5 = (L + 5, wd6)"
    by (simp add: NewCachingResolver_def alloc_def wd6_def wd5_def)
  have n6: "nextAddr wd6 = L + 6" by (simp add: wd6_def)
  have e7: "createParallelUpstreamResolver ups wd6 = (Some t, wd7)"
    by (simp add: createParallelUpstreamResolver_eq wd7_def t_def n6)
  have h6: "heap wd6 = (heap wd)(L \<mapsto> ClientNamesResolver (ClientLookup cfg) None,
      L + 1 \<mapsto> QueryLoggingResolver (QueryLog cfg) None,
      L + 2 \<mapsto> ConditionalUpstreamResolver (Conditional cfg) None,
      L + 3 \<mapsto> CustomDNSResolver (CustomDNS cfg) None,
      L + 4 \<mapsto> BlockingResolver (Blocking cfg) None,
      L + 5 \<mapsto> CachingResolver None)"
    by (simp add: wd6_def wd5_def wd4_def wd3_def wd2_def wd1_def)
  have c6: "calls wd6 = calls wd" and l6: "logged wd6 = logged wd"
    by (simp_all add: wd6_def wd5_def wd4_def wd3_def wd2_def wd1_def)
  have h7_low: "heap wd7 a = heap wd6 a" if "a < L + 6" for a
    using that by (simp add: wd7_def createParallelUpstreamResolver_eq n6)
  have h7_t: "heap wd7 t = Some (if length ups = 1 then UpstreamResolver (ups ! 0)
        else ParallelBestResolver (map Some [L + 6 ..< L + 6 + length ups]))"
    by (simp add: wd7_def createParallelUpstreamResolver_eq n6 t_def)
  have c7: "calls wd7 = calls wd" and l7: "logged wd7 = logged wd"
    by (simp_all add: wd7_def createParallelUpstreamResolver_eq c6 l6)
  have n7: "nextAddr wd7 = Suc t"
    by (simp add: wd7_def createParallelUpstreamResolver_eq n6 t_def)
  have t6: "L + 6 \<le> t" by (simp add: t_def)
  have h13: "heap wd13 = (heap wd7)(L \<mapsto> ClientNamesResolver (ClientLookup cfg) (Some (L + 1)),
      L + 1 \<mapsto> QueryLoggingResolver (QueryLog cfg) (Some (L + 2)),
      L + 2 \<mapsto> ConditionalUpstreamResolver (Conditional cfg) (Some (L + 3)),
      L + 3 \<mapsto> CustomDNSResolver (CustomDNS cfg) (Some (L + 4)),
      L + 4 \<mapsto> BlockingResolver (Blocking cfg) (Some (L + 5)),
      L + 5 \<mapsto> CachingResolver (Some t))"
    by (simp add: wd13_def Next_def h7_low h6)
  have c13: "calls wd13 = calls wd @
       [CallNext L (Some (L + 1)), CallNext (L + 1) (Some (L + 2)),
        CallNext (L + 2) (Some (L + 3)), CallNext (L + 3) (Some (L + 4)),
        CallNext (L + 4) (Some (L + 5)), CallNext (L + 5) (Some t)]"
    by (simp add: wd13_def Next_def c7)
  have l13: "logged wd13 = logged wd"
    by (simp add: wd13_def Next_def l7)
  let ?path = "[L, L + 1, L + 2, L + 3, L + 4, L + 5, t]"
  have h13_t: "heap wd13 t = heap wd7 t"
    using t6 by (simp add: h13)
  have path: "chain_path (heap wd13) (Some L) ?path"
    using t6 by (simp add: h13 h7_t)
  define srv where "srv = \<lparr>udpServer = \<lparr>Addr = CHR '':'' # show_nat (Port cfg), Net = ''udp'',
        Handler = [], UDPSize = 65535\<rparr>,
      tcpServer = \<lparr>Addr = CHR '':'' # show_nat (Port cfg), Net = ''tcp'',
        Handler = [], UDPSize = 0\<rparr>,
      queryResolver = Some L\<rparr>"
  define wd14 where "wd14 = wd13\<lparr>logged := logged wd13 @ LogCurrentConfiguration #
      printed C (heap wd13) ?path\<rparr>"
  have "chain_path (heap (wd13\<lparr>logged := logged wd13 @ [LogCurrentConfiguration]\<rparr>)) (Some L) ?path"
    using path by simp
  from printLoop_path [OF this, of C]
  have e14: "printConfiguration C srv wd13 = Some wd14"
    by (simp add: printConfiguration_def srv_def wd14_def)
  define s where "s = srv\<lparr>udpServer := (udpServer srv)\<lparr>Handler := Handler (udpServer srv) @ [''.'']\<rparr>,
      tcpServer := (tcpServer srv)\<lparr>Handler := Handler (tcpServer srv) @ [''.'']\<rparr>\<rparr>"
  define wd16 where "wd16 = wd14\<lparr>calls := calls wd14 @
      [CallHandleFunc ''udp'' ''.'', CallHandleFunc ''tcp'' ''.'']\<rparr>"
  have e16: "(let (udpServer1, wd15) = HandleFunc (udpServer srv) ''.'' wd14;
                 (tcpServer1, wd16) = HandleFunc (tcpServer srv) ''.'' wd15
             in Some ((Some (srv\<lparr>udpServer := udpServer1, tcpServer := tcpServer1\<rparr>), None :: string option),
                      wd16)) = Some ((Some s, None), wd16)"
    by (simp add: HandleFunc_def s_def wd16_def srv_def)
  have res: "NewServer C cfg wd = Some ((Some s, None), wd16)"
    unfolding NewServer_def
    apply (simp only: Let_def e1 prod.case e2 e3 e4 e5 e6 e7 ups_def [symmetric])
    apply (simp only: wd13_def [symmetric] srv_def [symmetric] e14 option.case)
    apply (rule e16 [unfolded Let_def])
    done
  have h16: "heap wd16 = heap wd13" by (simp add: wd16_def wd14_def)
  show ?thesis
  proof (rule that [OF res])
    show "queryResolver s = Some L" by (simp add: s_def srv_def)
    show "heap wd16 L = Some (ClientNamesResolver (ClientLookup cfg) (Some (L + 1)))"
      by (simp add: h16 h13)
    show "heap wd16 (L + 1) = Some (QueryLoggingResolver (QueryLog cfg) (Some (L + 2)))"
      by (simp add: h16 h13)
    show "heap wd16 (L + 2) = Some (ConditionalUpstreamResolver (Conditional cfg) (Some (L + 3)))"
      by (simp add: h16 h13)
    show "heap wd16 (L + 3) = Some (CustomDNSResolver (CustomDNS cfg) (Some (L + 4)))"
      by (simp add: h16 h13)
    show "heap wd16 (L + 4) = Some (BlockingResolver (Blocking cfg) (Some (L + 5)))"
      by (simp add: h16 h13)
    show "heap wd16 (L + 5) = Some (CachingResolver (Some t))"
      by (simp add: h16 h13)
    show "heap wd16 t = Some (if length ups = 1 then UpstreamResolver (ups ! 0)
        else ParallelBestResolver (map Some [L + 6 ..< L + 6 + length ups]))"
      by (simp only: h16 h13_t h7_t)
    show "calls wd16 = calls wd @
       [CallNext L (Some (L + 1)), CallNext (L + 1) (Some (L + 2)),
        CallNext (L + 2) (Some (L + 3)), CallNext (L + 3) (Some (L + 4)),
        CallNext (L + 4) (Some (L + 5)), CallNext (L + 5) (Some t),
        CallHandleFunc ''udp'' ''.'', CallHandleFunc ''tcp'' ''.'']"
      by (simp add: wd16_def wd14_def c13)
    show "logged wd16 = logged wd @ LogCurrentConfiguration #
       printed C (heap wd16) ?path"
      by (simp only: h16) (simp add: wd16_def wd14_def l13)
    show "chain_path (heap wd16) (Some L) ?path"
      by (simp only: h16 path)
    show "nextAddr wd16 = Suc t"
      by (simp add: wd16_def wd14_def wd13_def Next_def n7)
    show "heap wd16 a = heap wd a" if "a < L" for a
      using that by (simp add: h16 h13 h7_low h6)
  qed
qed

section \<open>The claims\<close>

subsection \<open>The boundary layer\<close>

lemmas OnRequest_simps = OnRequest_def Let_def WriteMsg_def HandleFailed_def

text \<open>
  C4: when \<^verbatim>\<open>Resolve\<close> succeeds (no error, and a response with a message),
  \<^verbatim>\<open>OnRequest\<close> returns, and the one thing it does with the writer is a
  \<^verbatim>\<open>WriteMsg\<close> of the message of that response, in which the recursion-available
  flag has been set to the recursion-desired flag of the query: the flag is set before
  the message is written, and the message written is the response's.
\<close>

theorem OnRequest_success_mirrors_recursion_desired:
  assumes "queryResolver s = Some a"
    and "Resolve (heap wd) a (request_of QuestionToString w request) = (Some resp, None)"
    and "Res resp = Some m"
  shows "fst (OnRequest Resolve QuestionToString s w request wd) = None \<and>
    written (fst (snd (OnRequest Resolve QuestionToString s w request wd))) =
      written w @ [CallWriteMsg (m\<lparr>Hdr := (Hdr m)\<lparr>RecursionAvailable :=
                                   RecursionDesired (Hdr request)\<rparr>\<rparr>)] \<and>
    RecursionAvailable (Hdr (m\<lparr>Hdr := (Hdr m)\<lparr>RecursionAvailable :=
        RecursionDesired (Hdr request)\<rparr>\<rparr>)) = RecursionDesired (Hdr request)"
  using assms by (simp add: OnRequest_simps split: option.split)

theorem OnRequest_success_mirrors_recursion_desired_witness:
  "fst (OnRequest ex_Resolve_ok ex_QuestionToString (ex_server (Some 0))
          (ex_writer (UDPAddr ex_peer)) ex_query ex_world) = None \<and>
    written (fst (snd (OnRequest ex_Resolve_ok ex_QuestionToString (ex_server (Some 0))
        (ex_writer (UDPAddr ex_peer)) ex_query ex_world))) =
      [CallWriteMsg (ex_answer\<lparr>Hdr := (Hdr ex_answer)\<lparr>RecursionAvailable := True\<rparr>\<rparr>)] \<and>
    RecursionAvailable (Hdr (ex_answer\<lparr>Hdr := (Hdr ex_answer)\<lparr>RecursionAvailable :=
        True\<rparr>\<rparr>)) = RecursionDesired (Hdr ex_query)"
proof -
  have h1: "queryResolver (ex_server (Some 0)) = Some 0" by (simp add: ex_server_def)
  have h2: "ex_Resolve_ok (heap ex_world) 0
      (request_of ex_QuestionToString (ex_writer (UDPAddr ex_peer)) ex_query) =
      (Some \<lparr>Res = Some ex_answer, Reason = ''RESOLVED''\<rparr>, None)"
    by (simp add: ex_Resolve_ok_def)
  have h3: "Res \<lparr>Res = Some ex_answer, Reason = ''RESOLVED''\<rparr> = Some ex_answer" by simp
  show ?thesis
    using OnRequest_success_mirrors_recursion_desired [where Resolve = ex_Resolve_ok
        and QuestionToString = ex_QuestionToString and w = "ex_writer (UDPAddr ex_peer)"
        and request = ex_query and wd = ex_world, OF h1 h2 h3]
    by (simp add: ex_writer_def ex_query_def)
qed

text \<open>
  C5: when \<^verbatim>\<open>Resolve\<close> returns an error, whatever response comes with it,
  \<^verbatim>\<open>OnRequest\<close> returns without a panic, and the one thing it does with the writer
  is to hand it, with the query, to \<^verbatim>\<open>dns.HandleFailed\<close>, the routine of the DNS
  library that answers with the failure code of the protocol. It writes no resolved
  answer and does not close the writer; the error is logged.
\<close>

theorem OnRequest_error_writes_failure:
  assumes "queryResolver s = Some a"
    and "Resolve (heap wd) a (request_of QuestionToString w request) = (response, Some err)"
  shows "fst (OnRequest Resolve QuestionToString s w request wd) = None \<and>
    written (fst (snd (OnRequest Resolve QuestionToString s w request wd))) =
      written w @ [CallHandleFailed request] \<and>
    logged (snd (snd (OnRequest Resolve QuestionToString s w request wd))) =
      logged wd @ [LogNewRequest, LogErrorOnProcessing err]"
  using assms by (simp add: OnRequest_simps)

theorem OnRequest_error_writes_failure_witness:
  "fst (OnRequest ex_Resolve_err ex_QuestionToString (ex_server (Some 0))
          (ex_writer (UDPAddr ex_peer)) ex_query ex_world) = None \<and>
    written (fst (snd (OnRequest ex_Resolve_err ex_QuestionToString (ex_server (Some 0))
          (ex_writer (UDPAddr ex_peer)) ex_query ex_world))) = [CallHandleFailed ex_query] \<and>
    logged (snd (snd (OnRequest ex_Resolve_err ex_QuestionToString (ex_server (Some 0))
          (ex_writer (UDPAddr ex_peer)) ex_query ex_world))) =
      [LogNewRequest, LogErrorOnProcessing ''i/o timeout'']"
proof -
  have h1: "queryResolver (ex_server (Some 0)) = Some 0" by (simp add: ex_server_def)
  have h2: "ex_Resolve_err (heap ex_world) 0
      (request_of ex_QuestionToString (ex_writer (UDPAddr ex_peer)) ex_query) =
      (None, Some ''i/o timeout'')"
    by (simp add: ex_Resolve_err_def)
  show ?thesis
    using OnRequest_error_writes_failure [where Resolve = ex_Resolve_err
        and QuestionToString = ex_QuestionToString and w = "ex_writer (UDPAddr ex_peer)"
        and request = ex_query and wd = ex_world, OF h1 h2]
    by (simp add: ex_writer_def ex_world_def)
qed

text \<open>
  C8: when \<^verbatim>\<open>Resolve\<close> succeeds, the message that \<^verbatim>\<open>OnRequest\<close> writes is the
  message of the response with the recursion-available flag replaced: every other field
  of the header and all the sections are those of the response.
\<close>

theorem OnRequest_changes_only_recursion_available:
  assumes "queryResolver s = Some a"
    and "Resolve (heap wd) a (request_of QuestionToString w request) = (Some resp, None)"
    and "Res resp = Some m"
  shows "let m' = m\<lparr>Hdr := (Hdr m)\<lparr>RecursionAvailable := RecursionDesired (Hdr request)\<rparr>\<rparr>
    in written (fst (snd (OnRequest Resolve QuestionToString s w request wd))) =
            written w @ [CallWriteMsg m'] \<and>
     MsgId (Hdr m') = MsgId (Hdr m) \<and> Response (Hdr m') = Response (Hdr m) \<and>
     Opcode (Hdr m') = Opcode (Hdr m) \<and> Authoritative (Hdr m') = Authoritative (Hdr m) \<and>
     Truncated (Hdr m') = Truncated (Hdr m) \<and>
     RecursionDesired (Hdr m') = RecursionDesired (Hdr m) \<and>
     Zero (Hdr m') = Zero (Hdr m) \<and> AuthenticatedData (Hdr m') = AuthenticatedData (Hdr m) \<and>
     CheckingDisabled (Hdr m') = CheckingDisabled (Hdr m) \<and> Rcode (Hdr m') = Rcode (Hdr m) \<and>
     Compress m' = Compress m \<and> Question m' = Question m \<and> Answer m' = Answer m \<and>
     Ns m' = Ns m \<and> Extra m' = Extra m"
  using assms by (simp add: OnRequest_simps split: option.split)

theorem OnRequest_changes_only_recursion_available_witness:
  "written (fst (snd (OnRequest ex_Resolve_ok ex_QuestionToString (ex_server (Some 0))
       (ex_writer (TCPAddr ex_peer)) ex_query ex_world))) =
     [CallWriteMsg (ex_answer\<lparr>Hdr := (Hdr ex_answer)\<lparr>RecursionAvailable := True\<rparr>\<rparr>)]"
proof -
  have h1: "queryResolver (ex_server (Some 0)) = Some 0" by (simp add: ex_server_def)
  have h2: "ex_Resolve_ok (heap ex_world) 0
      (request_of ex_QuestionToString (ex_writer (TCPAddr ex_peer)) ex_query) =
      (Some \<lparr>Res = Some ex_answer, Reason = ''RESOLVED''\<rparr>, None)"
    by (simp add: ex_Resolve_ok_def)
  have h3: "Res \<lparr>Res = Some ex_answer, Reason = ''RESOLVED''\<rparr> = Some ex_answer" by simp
  show ?thesis
    using OnRequest_changes_only_recursion_available [where Resolve = ex_Resolve_ok
        and QuestionToString = ex_QuestionToString and w = "ex_writer (TCPAddr ex_peer)"
        and request = ex_query and wd = ex_world, OF h1 h2 h3]
    by (simp add: ex_writer_def ex_query_def)
qed

text \<open>
  C9: the request that \<^verbatim>\<open>OnRequest\<close> hands to \<^verbatim>\<open>Resolve\<close> carries the field
  \<^verbatim>\<open>IP\<close> of the peer address as its client IP, for a UDP address and for a TCP
  address alike, whatever \<^verbatim>\<open>Resolve\<close> then returns.
\<close>

theorem OnRequest_client_ip_from_peer:
  assumes "RemoteAddr w = UDPAddr t \<or> RemoteAddr w = TCPAddr t"
    and "queryResolver s = Some a"
  shows "calls (snd (snd (OnRequest Resolve QuestionToString s w request wd))) =
     calls wd @ [CallResolve a \<lparr>ClientIP = IP t, Req = request,
        Log = \<lparr>question = QuestionToString (Question request), client_ip = IP t\<rparr>\<rparr>]"
  using assms
  by (auto simp: OnRequest_simps split: prod.splits option.splits)

theorem OnRequest_client_ip_from_peer_witness:
  "calls (snd (snd (OnRequest ex_Resolve_ok ex_QuestionToString (ex_server (Some 0))
       (ex_writer (UDPAddr ex_peer)) ex_query ex_world))) =
     [CallResolve 0 \<lparr>ClientIP = Some [192, 168, 1, 7], Req = ex_query,
        Log = \<lparr>question = ''example.com.'', client_ip = Some [192, 168, 1, 7]\<rparr>\<rparr>] \<and>
   calls (snd (snd (OnRequest ex_Resolve_err ex_QuestionToString (ex_server (Some 0))
       (ex_writer (TCPAddr ex_peer)) ex_query ex_world))) =
     [CallResolve 0 \<lparr>ClientIP = Some [192, 168, 1, 7], Req = ex_query,
        Log = \<lparr>question = ''example.com.'', client_ip = Some [192, 168, 1, 7]\<rparr>\<rparr>]"
proof -
  have u: "RemoteAddr (ex_writer (UDPAddr ex_peer)) = UDPAddr ex_peer \<or>
      RemoteAddr (ex_writer (UDPAddr ex_peer)) = TCPAddr ex_peer"
    by (simp add: ex_writer_def)
  have t: "RemoteAddr (ex_writer (TCPAddr ex_peer)) = UDPAddr ex_peer \<or>
      RemoteAddr (ex_writer (TCPAddr ex_peer)) = TCPAddr ex_peer"
    by (simp add: ex_writer_def)
  have h: "queryResolver (ex_server (Some 0)) = Some 0" by (simp add: ex_server_def)
  show ?thesis
    using OnRequest_client_ip_from_peer [OF u h, of ex_Resolve_ok ex_QuestionToString
        ex_query ex_world]
      OnRequest_client_ip_from_peer [OF t h, of ex_Resolve_err ex_QuestionToString
        ex_query ex_world]
    by (simp add: ex_peer_def ex_world_def ex_QuestionToString_def ex_query_def)
qed

text \<open>
  C10: for a peer address that is neither a UDP nor a TCP address (another
  implementation of \<^verbatim>\<open>net.Addr\<close>, or nil), \<^verbatim>\<open>resolveClientIP\<close> returns nil, and
  \<^verbatim>\<open>OnRequest\<close> still calls \<^verbatim>\<open>Resolve\<close> on the head of the chain, with a request
  whose client IP is nil.
\<close>

theorem OnRequest_unknown_peer_still_resolves:
  assumes "RemoteAddr w = OtherAddr network str \<or> RemoteAddr w = NilAddr"
    and "queryResolver s = Some a"
  shows "resolveClientIP (RemoteAddr w) = None \<and>
     calls (snd (snd (OnRequest Resolve QuestionToString s w request wd))) =
     calls wd @ [CallResolve a \<lparr>ClientIP = None, Req = request,
        Log = \<lparr>question = QuestionToString (Question request), client_ip = None\<rparr>\<rparr>]"
  using assms
  by (auto simp: OnRequest_simps split: prod.splits option.splits)

theorem OnRequest_unknown_peer_still_resolves_witness:
  "resolveClientIP (RemoteAddr (ex_writer (OtherAddr ''unix'' ''/run/dns.sock''))) = None \<and>
   calls (snd (snd (OnRequest ex_Resolve_ok ex_QuestionToString (ex_server (Some 0))
       (ex_writer (OtherAddr ''unix'' ''/run/dns.sock'')) ex_query ex_world))) =
     [CallResolve 0 \<lparr>ClientIP = None, Req = ex_query,
        Log = \<lparr>question = ''example.com.'', client_ip = None\<rparr>\<rparr>]"
proof -
  have o: "RemoteAddr (ex_writer (OtherAddr ''unix'' ''/run/dns.sock'')) =
        OtherAddr ''unix'' ''/run/dns.sock'' \<or>
      RemoteAddr (ex_writer (OtherAddr ''unix'' ''/run/dns.sock'')) = NilAddr"
    by (simp add: ex_writer_def)
  have h: "queryResolver (ex_server (Some 0)) = Some 0" by (simp add: ex_server_def)
  show ?thesis
    using OnRequest_unknown_peer_still_resolves [OF o h, of ex_Resolve_ok
        ex_QuestionToString ex_query ex_world]
    by (simp add: ex_world_def ex_QuestionToString_def ex_query_def)
qed

subsection \<open>The terminal stage\<close>

text \<open>
  C3: for a list of exactly one upstream target \<^verbatim>\<open>createParallelUpstreamResolver\<close>
  returns a new upstream resolver for that entry. For a list of more than one it returns
  a new parallel best-resolver whose members are new upstream resolvers, one per entry
  and in the order of the list: the objects at the member addresses are the upstream
  resolvers of the entries.
\<close>

theorem createParallelUpstreamResolver_single_or_parallel:
  "(length ups = 1 \<longrightarrow>
      fst (createParallelUpstreamResolver ups wd) = Some (nextAddr wd) \<and>
      heap (snd (createParallelUpstreamResolver ups wd)) (nextAddr wd) =
        Some (UpstreamResolver (ups ! 0))) \<and>
   (1 < length ups \<longrightarrow>
      fst (createParallelUpstreamResolver ups wd) = Some (nextAddr wd + length ups) \<and>
      heap (snd (createParallelUpstreamResolver ups wd)) (nextAddr wd + length ups) =
        Some (ParallelBestResolver (map Some [nextAddr wd ..< nextAddr wd + length ups])) \<and>
      map (heap (snd (createParallelUpstreamResolver ups wd)))
          [nextAddr wd ..< nextAddr wd + length ups] =
        map (\<lambda>u. Some (UpstreamResolver u)) ups)"
proof (intro conjI impI)
  assume "length ups = 1"
  then show "fst (createParallelUpstreamResolver ups wd) = Some (nextAddr wd)"
    and "heap (snd (createParallelUpstreamResolver ups wd)) (nextAddr wd) =
        Some (UpstreamResolver (ups ! 0))"
    by (simp_all add: createParallelUpstreamResolver_eq)
next
  assume many: "1 < length ups"
  then show "fst (createParallelUpstreamResolver ups wd) = Some (nextAddr wd + length ups)"
    and "heap (snd (createParallelUpstreamResolver ups wd)) (nextAddr wd + length ups) =
        Some (ParallelBestResolver (map Some [nextAddr wd ..< nextAddr wd + length ups]))"
    by (simp_all add: createParallelUpstreamResolver_eq)
  show "map (heap (snd (createParallelUpstreamResolver ups wd)))
          [nextAddr wd ..< nextAddr wd + length ups] =
        map (\<lambda>u. Some (UpstreamResolver u)) ups"
  proof (rule nth_equalityI)
    show "length (map (heap (snd (createParallelUpstreamResolver ups wd)))
          [nextAddr wd ..< nextAddr wd + length ups]) =
        length (map (\<lambda>u. Some (UpstreamResolver u)) ups)"
      by simp
  next
    fix i
    assume "i < length (map (heap (snd (createParallelUpstreamResolver ups wd)))
          [nextAddr wd ..< nextAddr wd + length ups])"
    then have i: "i < length ups" by simp
    with many show "map (heap (snd (createParallelUpstreamResolver ups wd)))
          [nextAddr wd ..< nextAddr wd + length ups] ! i =
        map (\<lambda>u. Some (UpstreamResolver u)) ups ! i"
      by (simp add: createParallelUpstreamResolver_eq)
  qed
qed

theorem createParallelUpstreamResolver_single_or_parallel_witness:
  "fst (createParallelUpstreamResolver [''1.1.1.1''] ex_world) = Some 1 \<and>
   heap (snd (createParallelUpstreamResolver [''1.1.1.1''] ex_world)) 1 =
     Some (UpstreamResolver ''1.1.1.1'') \<and>
   fst (createParallelUpstreamResolver [''1.1.1.1'', ''8.8.8.8''] ex_world) = Some 3 \<and>
   heap (snd (createParallelUpstreamResolver [''1.1.1.1'', ''8.8.8.8''] ex_world)) 3 =
     Some (ParallelBestResolver [Some 1, Some 2]) \<and>
   map (heap (snd (createParallelUpstreamResolver [''1.1.1.1'', ''8.8.8.8''] ex_world))) [1, 2] =
     [Some (UpstreamResolver ''1.1.1.1''), Some (UpstreamResolver ''8.8.8.8'')]"
proof -
  have n: "nextAddr ex_world = 1" by (simp add: ex_world_def)
  have u: "[1 ..< 3] = [1, 2 :: nat]" by (simp add: upt_rec)
  show ?thesis
    using createParallelUpstreamResolver_single_or_parallel [of "[''1.1.1.1'']" ex_world]
      createParallelUpstreamResolver_single_or_parallel
        [of "[''1.1.1.1'', ''8.8.8.8'']" ex_world]
    by (simp add: n u numeral_2_eq_2 numeral_3_eq_3)
qed

subsection \<open>The diagnostics walk\<close>

text \<open>
  C6: on every chain \<^verbatim>\<open>printConfiguration\<close> returns. It logs the heading and then,
  from the head on, each stage of the chain with the lines of its
  \<^verbatim>\<open>Configuration()\<close>, and nothing else; the heap is as before. The stages it
  visits are linked each to the next by \<^verbatim>\<open>GetNext\<close>, and the last one is the first
  stage that is not a chained resolver, or the stage without successor. A chain whose
  head is not a chained resolver is the chain of that one stage.
\<close>

theorem printConfiguration_walks_chain:
  assumes "chain_path (heap wd) (queryResolver s) as"
  shows "printConfiguration Configuration s wd =
      Some (wd\<lparr>logged := logged wd @ LogCurrentConfiguration #
                  printed Configuration (heap wd) as\<rparr>) \<and>
    (\<forall>i. Suc i < length as \<longrightarrow>
       (\<exists>ob. heap wd (as ! i) = Some ob \<and> GetNext ob = Some (Some (as ! Suc i)))) \<and>
    (as \<noteq> [] \<longrightarrow>
       (\<exists>ob. heap wd (last as) = Some ob \<and> (GetNext ob = None \<or> GetNext ob = Some None)))"
  using assms printConfiguration_path [OF assms, of Configuration]
    chain_path_links [OF assms] chain_path_last [OF assms]
  by blast

theorem printConfiguration_walks_chain_witness:
  "printConfiguration ex_Configuration (ex_server (Some 4)) ex_chain_world =
     Some (ex_chain_world\<lparr>logged := [LogCurrentConfiguration, LogResolver 4,
        LogConfigurationLine ''parallel'']\<rparr>) \<and>
   printConfiguration ex_Configuration (ex_server (Some 0)) ex_chain_world =
     Some (ex_chain_world\<lparr>logged := [LogCurrentConfiguration, LogResolver 0, LogResolver 1,
        LogResolver 4, LogConfigurationLine ''parallel'']\<rparr>)"
proof -
  have p4: "chain_path (heap ex_chain_world) (queryResolver (ex_server (Some 4))) [4]"
    by (simp add: ex_chain_world_def ex_server_def)
  have p0: "chain_path (heap ex_chain_world) (queryResolver (ex_server (Some 0))) [0, 1, 4]"
    by (simp add: ex_chain_world_def ex_server_def)
  have l: "logged ex_chain_world = []" by (simp add: ex_chain_world_def)
  have c4: "printed ex_Configuration (heap ex_chain_world) [4] =
      [LogResolver 4, LogConfigurationLine ''parallel'']"
    by (simp add: printed_def ex_Configuration_def ex_chain_world_def)
  have c0: "printed ex_Configuration (heap ex_chain_world) [0, 1, 4] =
      [LogResolver 0, LogResolver 1, LogResolver 4, LogConfigurationLine ''parallel'']"
    by (simp add: printed_def ex_Configuration_def ex_chain_world_def)
  show ?thesis
    using printConfiguration_walks_chain [OF p4, of ex_Configuration]
      printConfiguration_walks_chain [OF p0, of ex_Configuration]
    by (simp only: l c4 c0 append_Nil)
qed

subsection \<open>The assembly of the pipeline\<close>

lemma OnRequest_heap:
  "heap (snd (snd (OnRequest Resolve QuestionToString s w request wd))) = heap wd"
  by (simp add: OnRequest_simps split: option.split prod.split)

lemma OnRequest_calls:
  "queryResolver s = Some a \<Longrightarrow>
   calls (snd (snd (OnRequest Resolve QuestionToString s w request wd))) =
     calls wd @ [CallResolve a (request_of QuestionToString w request)]"
  by (simp add: OnRequest_simps split: option.split prod.split)

text \<open>
  C1: for every configuration \<^verbatim>\<open>NewServer\<close> returns a server whose
  \<^verbatim>\<open>queryResolver\<close> is the client-names stage, the first of seven new stages. The
  chain from it is, in this order: client names, query logging, conditional upstream,
  custom DNS, blocking, caching, and the terminal stage that
  \<^verbatim>\<open>createParallelUpstreamResolver\<close> returns (an upstream resolver for one upstream
  target, a parallel best-resolver otherwise). Each stage holds its block of the
  configuration. For every query, \<^verbatim>\<open>OnRequest\<close> of that server makes exactly one
  call of \<^verbatim>\<open>Resolve\<close>, on the client-names stage.
\<close>

theorem NewServer_builds_fixed_stage_order:
  fixes wd :: "('cl, 'ql, 'cu, 'cd, 'bl, 'up, 'rr) world"
  shows "let L = nextAddr wd; ups = ExternalResolvers (Upstream cfg);
       t = (if length ups = 1 then L + 6 else L + 6 + length ups)
   in \<exists>s wd'.
        NewServer Configuration cfg wd = Some ((Some s, None), wd') \<and>
        queryResolver s = Some L \<and>
        chain_path (heap wd') (queryResolver s) [L, L + 1, L + 2, L + 3, L + 4, L + 5, t] \<and>
        heap wd' L = Some (ClientNamesResolver (ClientLookup cfg) (Some (L + 1))) \<and>
        heap wd' (L + 1) = Some (QueryLoggingResolver (QueryLog cfg) (Some (L + 2))) \<and>
        heap wd' (L + 2) =
          Some (ConditionalUpstreamResolver (Conditional cfg) (Some (L + 3))) \<and>
        heap wd' (L + 3) = Some (CustomDNSResolver (CustomDNS cfg) (Some (L + 4))) \<and>
        heap wd' (L + 4) = Some (BlockingResolver (Blocking cfg) (Some (L + 5))) \<and>
        heap wd' (L + 5) = Some (CachingResolver (Some t)) \<and>
        heap wd' t =
          Some (if length ups = 1 then UpstreamResolver (ups ! 0)
                else ParallelBestResolver (map Some [L + 6 ..< L + 6 + length ups])) \<and>
        (\<forall>Resolve QuestionToString w request
            (wd2 :: ('cl, 'ql, 'cu, 'cd, 'bl, 'up, 'rr) world).
           calls (snd (snd (OnRequest Resolve QuestionToString s w request wd2))) =
             calls wd2 @ [CallResolve L (request_of QuestionToString w request)])"
proof -
  define L where "L = nextAddr wd"
  define ups where "ups = ExternalResolvers (Upstream cfg)"
  define t where "t = (if length ups = 1 then L + 6 else L + 6 + length ups)"
  obtain s wd' where r: "NewServer Configuration cfg wd = Some ((Some s, None), wd')"
    and q: "queryResolver s = Some L"
    and h0: "heap wd' L = Some (ClientNamesResolver (ClientLookup cfg) (Some (L + 1)))"
    and h1: "heap wd' (L + 1) = Some (QueryLoggingResolver (QueryLog cfg) (Some (L + 2)))"
    and h2: "heap wd' (L + 2) =
      Some (ConditionalUpstreamResolver (Conditional cfg) (Some (L + 3)))"
    and h3: "heap wd' (L + 3) = Some (CustomDNSResolver (CustomDNS cfg) (Some (L + 4)))"
    and h4: "heap wd' (L + 4) = Some (BlockingResolver (Blocking cfg) (Some (L + 5)))"
    and h5: "heap wd' (L + 5) = Some (CachingResolver (Some t))"
    and ht: "heap wd' t =
      Some (if length ups = 1 then UpstreamResolver (ups ! 0)
            else ParallelBestResolver (map Some [L + 6 ..< L + 6 + length ups]))"
    and p: "chain_path (heap wd') (Some L) [L, L + 1, L + 2, L + 3, L + 4, L + 5, t]"
    unfolding L_def t_def ups_def by (rule NewServer_props [of Configuration cfg wd])
  from p q have p': "chain_path (heap wd') (queryResolver s)
      [L, L + 1, L + 2, L + 3, L + 4, L + 5, t]"
    by simp
  have rq: "calls (snd (snd (OnRequest Resolve QuestionToString s w request wd2))) =
         calls wd2 @ [CallResolve L (request_of QuestionToString w request)]"
    for Resolve QuestionToString w request
      and wd2 :: "('cl, 'ql, 'cu, 'cd, 'bl, 'up, 'rr) world"
    by (rule OnRequest_calls [OF q])
  show ?thesis
    unfolding Let_def L_def [symmetric] ups_def [symmetric] t_def [symmetric]
    apply (rule exI [of _ s])
    apply (rule exI [of _ wd'])
    apply (intro conjI allI)
    apply (rule r q p' h0 h1 h2 h3 h4 h5 ht rq)+
    done
qed

text \<open>
  C2, as amended: if zero upstream targets are configured, server.go makes no check of
  the list. \<^verbatim>\<open>createParallelUpstreamResolver\<close> hands the empty list to the
  constructor of the parallel best-resolver, and \<^verbatim>\<open>NewServer\<close> reports no
  configuration error: it returns a server, whose chain starts at the new client-names
  stage, and a nil error.
\<close>

theorem NewServer_zero_upstreams_no_configuration_error:
  assumes "ExternalResolvers (Upstream cfg) = []"
  shows "(\<exists>s wd'.
       NewServer Configuration cfg wd = Some ((Some s, None), wd') \<and>
       queryResolver s = Some (nextAddr wd)) \<and>
     createParallelUpstreamResolver (ExternalResolvers (Upstream cfg)) wd =
       (case NewParallelBestResolver [] wd of (r, wd1) \<Rightarrow> (Some r, wd1))"
proof
  obtain s wd' where "NewServer Configuration cfg wd = Some ((Some s, None), wd')"
    and "queryResolver s = Some (nextAddr wd)"
    by (rule NewServer_props [of Configuration cfg wd])
  then show "\<exists>s wd'.
       NewServer Configuration cfg wd = Some ((Some s, None), wd') \<and>
       queryResolver s = Some (nextAddr wd)"
    by blast
next
  show "createParallelUpstreamResolver (ExternalResolvers (Upstream cfg)) wd =
       (case NewParallelBestResolver [] wd of (r, wd1) \<Rightarrow> (Some r, wd1))"
    by (simp add: assms createParallelUpstreamResolver_def)
qed

theorem NewServer_zero_upstreams_no_configuration_error_witness:
  "(\<exists>s wd'.
       NewServer ex_Configuration (ex_cfg []) ex_world = Some ((Some s, None), wd') \<and>
       queryResolver s = Some 1) \<and>
     createParallelUpstreamResolver [] ex_world =
       (case NewParallelBestResolver [] ex_world of (r, wd1) \<Rightarrow> (Some r, wd1))"
proof -
  have h: "ExternalResolvers (Upstream (ex_cfg [])) = []" by (simp add: ex_cfg_def)
  have n: "nextAddr ex_world = 1" by (simp add: ex_world_def)
  show ?thesis
    using NewServer_zero_upstreams_no_configuration_error
      [OF h, of ex_Configuration ex_world]
    by (simp only: h n)
qed

text \<open>
  C2, as the claim states it, fails: with zero upstream targets \<^verbatim>\<open>NewServer\<close>
  returns a nil error and a server, whose chain starts at the new client-names stage.
\<close>

theorem NewServer_zero_upstreams_counterexample:
  "map_option (snd \<circ> fst) (NewServer ex_Configuration (ex_cfg []) ex_world) = Some None \<and>
   map_option (map_option queryResolver \<circ> fst \<circ> fst)
     (NewServer ex_Configuration (ex_cfg []) ex_world) = Some (Some (Some 1))"
proof -
  obtain s wd' where
    "NewServer ex_Configuration (ex_cfg []) ex_world = Some ((Some s, None), wd')"
    and "queryResolver s = Some (nextAddr ex_world)"
    by (rule NewServer_props [of ex_Configuration "ex_cfg []" ex_world])
  then show ?thesis by (simp add: ex_world_def)
qed

text \<open>
  C7: in \<^verbatim>\<open>NewServer\<close> the method \<^verbatim>\<open>Next\<close> is called exactly once on each of the
  six chained stages, every call before the handlers are registered with the listeners
  (which \<^verbatim>\<open>NewServer\<close> does not start), and \<^verbatim>\<open>NewServer\<close> calls no \<^verbatim>\<open>Resolve\<close>.
  The chain from the head is a path of seven stages with distinct addresses. Afterwards
  neither \<^verbatim>\<open>printConfiguration\<close> nor \<^verbatim>\<open>OnRequest\<close> changes the heap or calls
  \<^verbatim>\<open>Next\<close>: the walk returns the world with more log lines only, and handling a
  query adds one call of \<^verbatim>\<open>Resolve\<close>.
\<close>

theorem NewServer_links_once_and_acyclic:
  "let L = nextAddr wd; ups = ExternalResolvers (Upstream cfg);
       t = (if length ups = 1 then L + 6 else L + 6 + length ups)
   in \<exists>s wd'.
        NewServer Configuration cfg wd = Some ((Some s, None), wd') \<and>
        calls wd' = calls wd @
          [CallNext L (Some (L + 1)), CallNext (L + 1) (Some (L + 2)),
           CallNext (L + 2) (Some (L + 3)), CallNext (L + 3) (Some (L + 4)),
           CallNext (L + 4) (Some (L + 5)), CallNext (L + 5) (Some t),
           CallHandleFunc ''udp'' ''.'', CallHandleFunc ''tcp'' ''.''] \<and>
        chain_path (heap wd') (queryResolver s) [L, L + 1, L + 2, L + 3, L + 4, L + 5, t] \<and>
        distinct [L, L + 1, L + 2, L + 3, L + 4, L + 5, t] \<and>
        (\<forall>lg cs.
           printConfiguration Configuration s (wd'\<lparr>logged := lg, calls := cs\<rparr>) =
             Some (wd'\<lparr>logged := lg @ LogCurrentConfiguration #
                      printed Configuration (heap wd') [L, L + 1, L + 2, L + 3, L + 4, L + 5, t],
                    calls := cs\<rparr>)) \<and>
        (\<forall>Resolve QuestionToString w request lg cs.
           heap (snd (snd (OnRequest Resolve QuestionToString s w request
                  (wd'\<lparr>logged := lg, calls := cs\<rparr>)))) = heap wd' \<and>
           calls (snd (snd (OnRequest Resolve QuestionToString s w request
                  (wd'\<lparr>logged := lg, calls := cs\<rparr>)))) =
             cs @ [CallResolve L (request_of QuestionToString w request)])"
proof -
  define L where "L = nextAddr wd"
  define t where "t = (if length (ExternalResolvers (Upstream cfg)) = 1 then L + 6
      else L + 6 + length (ExternalResolvers (Upstream cfg)))"
  let ?path = "[L, L + 1, L + 2, L + 3, L + 4, L + 5, t]"
  obtain s wd' where r: "NewServer Configuration cfg wd = Some ((Some s, None), wd')"
    and q: "queryResolver s = Some L"
    and c: "calls wd' = calls wd @
          [CallNext L (Some (L + 1)), CallNext (L + 1) (Some (L + 2)),
           CallNext (L + 2) (Some (L + 3)), CallNext (L + 3) (Some (L + 4)),
           CallNext (L + 4) (Some (L + 5)), CallNext (L + 5) (Some t),
           CallHandleFunc ''udp'' ''.'', CallHandleFunc ''tcp'' ''.'']"
    and p: "chain_path (heap wd') (Some L) ?path"
    unfolding L_def t_def by (rule NewServer_props [of Configuration cfg wd])
  have d: "distinct ?path" by (simp add: t_def)
  have pc: "printConfiguration Configuration s (wd'\<lparr>logged := lg, calls := cs\<rparr>) =
             Some (wd'\<lparr>logged := lg @ LogCurrentConfiguration #
                      printed Configuration (heap wd') ?path, calls := cs\<rparr>)" for lg cs
  proof -
    have "chain_path (heap (wd'\<lparr>logged := lg, calls := cs\<rparr>)) (queryResolver s) ?path"
      using p q by simp
    from printConfiguration_path [OF this, of Configuration] show ?thesis by simp
  qed
  have rq: "heap (snd (snd (OnRequest Resolve QuestionToString s w request
                  (wd'\<lparr>logged := lg, calls := cs\<rparr>)))) = heap wd' \<and>
           calls (snd (snd (OnRequest Resolve QuestionToString s w request
                  (wd'\<lparr>logged := lg, calls := cs\<rparr>)))) =
             cs @ [CallResolve L (request_of QuestionToString w request)]"
    for Resolve QuestionToString w request lg cs
    using OnRequest_calls [OF q, of Resolve QuestionToString w request
        "wd'\<lparr>logged := lg, calls := cs\<rparr>"]
    by (simp add: OnRequest_heap)
  from p q have p': "chain_path (heap wd') (queryResolver s) ?path" by simp
  show ?thesis
    unfolding Let_def L_def [symmetric] t_def [symmetric]
    using r c p' d pc rq by blast
qed

end
